theory Spec2Isabelle
  imports Complex_Main
begin

section \<open>Values of type double\<close>

text \<open>
  The estimator computes with C \<^verbatim>\<open>double\<close>s. Its control flow depends on how the
  special values behave: a comparison with a NaN is false, a division by zero gives an
  infinity or a NaN, the logarithm of zero is minus infinity and that of a negative number
  a NaN. The type below keeps exactly these cases apart. A finite value carries a real
  number and finite arithmetic is exact: rounding, overflow to infinity and the sign of
  zero are not represented (a zero divisor counts as +0). The theorems below are about the
  control flow and about which operation meets which operands, and the concrete runs use
  inputs on which no comparison depends on rounding.
\<close>

datatype double = Finite real | PInf | MInf | NaN

fun dadd :: "double \<Rightarrow> double \<Rightarrow> double" where
  "dadd NaN y = NaN"
| "dadd x NaN = NaN"
| "dadd (Finite x) (Finite y) = Finite (x + y)"
| "dadd (Finite x) PInf = PInf"
| "dadd (Finite x) MInf = MInf"
| "dadd PInf MInf = NaN"
| "dadd PInf y = PInf"
| "dadd MInf PInf = NaN"
| "dadd MInf y = MInf"

fun dsub :: "double \<Rightarrow> double \<Rightarrow> double" where
  "dsub NaN y = NaN"
| "dsub x NaN = NaN"
| "dsub (Finite x) (Finite y) = Finite (x - y)"
| "dsub (Finite x) PInf = MInf"
| "dsub (Finite x) MInf = PInf"
| "dsub PInf PInf = NaN"
| "dsub PInf y = PInf"
| "dsub MInf MInf = NaN"
| "dsub MInf y = MInf"

fun dmul :: "double \<Rightarrow> double \<Rightarrow> double" where
  "dmul NaN y = NaN"
| "dmul x NaN = NaN"
| "dmul (Finite x) (Finite y) = Finite (x * y)"
| "dmul (Finite x) PInf = (if x = 0 then NaN else if 0 < x then PInf else MInf)"
| "dmul (Finite x) MInf = (if x = 0 then NaN else if 0 < x then MInf else PInf)"
| "dmul PInf (Finite y) = (if y = 0 then NaN else if 0 < y then PInf else MInf)"
| "dmul MInf (Finite y) = (if y = 0 then NaN else if 0 < y then MInf else PInf)"
| "dmul PInf PInf = PInf"
| "dmul PInf MInf = MInf"
| "dmul MInf PInf = MInf"
| "dmul MInf MInf = PInf"

fun ddiv :: "double \<Rightarrow> double \<Rightarrow> double" where
  "ddiv NaN y = NaN"
| "ddiv x NaN = NaN"
| "ddiv (Finite x) (Finite y) =
     (if y \<noteq> 0 then Finite (x / y)
      else if x = 0 then NaN else if 0 < x then PInf else MInf)"
| "ddiv (Finite x) PInf = Finite 0"
| "ddiv (Finite x) MInf = Finite 0"
| "ddiv PInf (Finite y) = (if 0 \<le> y then PInf else MInf)"
| "ddiv MInf (Finite y) = (if 0 \<le> y then MInf else PInf)"
| "ddiv PInf y = NaN"
| "ddiv MInf y = NaN"

fun dlt :: "double \<Rightarrow> double \<Rightarrow> bool" where
  "dlt NaN y = False"
| "dlt x NaN = False"
| "dlt (Finite x) (Finite y) = (x < y)"
| "dlt (Finite x) PInf = True"
| "dlt (Finite x) MInf = False"
| "dlt PInf y = False"
| "dlt MInf MInf = False"
| "dlt MInf y = True"

text \<open>\<^verbatim>\<open>x >= y\<close> on doubles; it is not the negation of \<open>dlt\<close>, because of NaN.\<close>

fun dge :: "double \<Rightarrow> double \<Rightarrow> bool" where
  "dge NaN y = False"
| "dge x NaN = False"
| "dge (Finite x) (Finite y) = (y \<le> x)"
| "dge (Finite x) PInf = False"
| "dge (Finite x) MInf = True"
| "dge PInf y = True"
| "dge MInf MInf = True"
| "dge MInf y = False"

fun dfabs :: "double \<Rightarrow> double" where
  "dfabs (Finite x) = Finite \<bar>x\<bar>"
| "dfabs PInf = PInf"
| "dfabs MInf = PInf"
| "dfabs NaN = NaN"

fun dlog :: "double \<Rightarrow> double" where
  "dlog (Finite x) = (if 0 < x then Finite (ln x) else if x = 0 then MInf else NaN)"
| "dlog PInf = PInf"
| "dlog MInf = NaN"
| "dlog NaN = NaN"

fun dsqrt :: "double \<Rightarrow> double" where
  "dsqrt (Finite x) = (if 0 \<le> x then Finite (sqrt x) else NaN)"
| "dsqrt PInf = PInf"
| "dsqrt MInf = NaN"
| "dsqrt NaN = NaN"

section \<open>Arguments, results and errors of the MEX entry point\<close>

text \<open>
  An \<^verbatim>\<open>mxArray\<close> is a matrix: its row count, its column count and its data. The
  estimator reads the loop only when it has one row, so the storage order plays no role.
\<close>

record 'a mxArray =
  mxGetM :: nat
  mxGetN :: nat
  mxGetData :: "'a list"

text \<open>
  The right-hand sides \<^verbatim>\<open>prhs[0..6]\<close>. The scalar arguments are held as the values the
  code works with after \<^verbatim>\<open>mxGetScalar\<close> and its cast: \<open>maxit\<close> and \<open>nconvreq\<close> as C
  \<^verbatim>\<open>int\<close>s, \<open>lengthFlag\<close> as the \<^verbatim>\<open>char\<close>, \<open>isFundamental\<close> as the \<^verbatim>\<open>bool\<close>.
\<close>

record args =
  P_BRAID :: "int mxArray"
  P_LOOP_IN :: "double mxArray"
  maxit :: int
  nconvreq :: int
  tol :: double
  lengthFlag :: int
  isFundamental :: bool

text \<open>The left-hand sides \<^verbatim>\<open>plhs[0..2]\<close>. \<open>P_ENTROPY\<close> is \<open>None\<close> when \<^verbatim>\<open>entr\<close> is
  returned without ever having been assigned (the loop body never ran).\<close>

record outputs =
  P_ENTROPY :: "double option"
  P_ITERATES :: int
  P_LOOP_OUT :: "double list"

text \<open>
  \<^verbatim>\<open>mexErrMsgIdAndTxt\<close> does not return: each identifier it is called with is an error
  value. \<open>int_overflow\<close> stands for the undefined \<^verbatim>\<open>++it\<close> at \<^verbatim>\<open>INT_MAX\<close>.
\<close>

datatype error = badarg | badlengthflag | badlength | int_overflow

definition INT_MAX :: int where
  "INT_MAX = 2147483647"

text \<open>
  The headers \<^verbatim>\<open>update_rules.hpp\<close> and \<^verbatim>\<open>loop_helper.hpp\<close> are included by the source
  file but are not part of it: the braid action and the three length functions are
  parameters of the model. They receive the arrays \<^verbatim>\<open>a[1..N/2]\<close>, \<^verbatim>\<open>b[1..N/2]\<close> as lists.
\<close>

record collaborators =
  update_rules :: "nat \<Rightarrow> int \<Rightarrow> int list \<Rightarrow> double list \<Rightarrow> double list
                     \<Rightarrow> double list \<times> double list"
  intaxis :: "nat \<Rightarrow> double list \<Rightarrow> double list \<Rightarrow> double"
  minlength :: "nat \<Rightarrow> double list \<Rightarrow> double list \<Rightarrow> double"
  l2norm2 :: "nat \<Rightarrow> double list \<Rightarrow> double list \<Rightarrow> double"

section \<open>The Length Oracle\<close>

text \<open>The value \<^verbatim>\<open>retval\<close> holds after the switch of \<^verbatim>\<open>looplength\<close>; the default case
  raises.\<close>

definition metric_value ::
  "collaborators \<Rightarrow> nat \<Rightarrow> double list \<Rightarrow> double list \<Rightarrow> int \<Rightarrow> error + double" where
  "metric_value c N a b flag =
     (if flag = 0 then Inr (intaxis c N a b)
      else if flag = 1 then Inr (minlength c N a b)
      else if flag = 2 then Inr (dsqrt (l2norm2 c N a b))
      else Inl badlengthflag)"

definition looplength ::
  "collaborators \<Rightarrow> nat \<Rightarrow> double list \<Rightarrow> double list \<Rightarrow> int \<Rightarrow> error + double" where
  "looplength c N a b flag =
     (case metric_value c N a b flag of
        Inl err \<Rightarrow> Inl err
      | Inr retval \<Rightarrow> if dlt retval (Finite 0) then Inl badlength else Inr retval)"

section \<open>The Growth Estimator\<close>

definition braidword :: "args \<Rightarrow> int list" where
  "braidword p = mxGetData (P_BRAID p)"

definition Ngen :: "args \<Rightarrow> nat" where
  "Ngen p = max (mxGetM (P_BRAID p)) (mxGetN (P_BRAID p))"

definition N :: "args \<Rightarrow> nat" where
  "N p = mxGetN (P_LOOP_IN p)"

text \<open>The number of loop punctures, \<^verbatim>\<open>(int)(N/2 + 2)\<close>; the row is taken to be short
  enough for the cast to keep the value.\<close>

definition n :: "args \<Rightarrow> int" where
  "n p = int (N p div 2 + 2)"

text \<open>
  The mutable locals of \<^verbatim>\<open>mexFunction\<close>. The vectors \<open>a_storage\<close> and \<open>b_storage\<close> hold
  \<^verbatim>\<open>a[1..N/2]\<close> and \<^verbatim>\<open>b[1..N/2]\<close>: \<^verbatim>\<open>a[k]\<close> is element \<open>k - 1\<close> of \<open>a_storage\<close>. The
  loop counter \<^verbatim>\<open>it\<close> is passed beside the state.
\<close>

record state =
  a_storage :: "double list"
  b_storage :: "double list"
  discount :: double
  currentLength :: double
  nconv :: int
  entr :: "double option"
  entr0 :: double

text \<open>The switch on \<^verbatim>\<open>lengthFlag\<close> that initialises the discount.\<close>

definition initial_discount :: "args \<Rightarrow> double" where
  "initial_discount p =
     (if lengthFlag p = 0
      then dsub (dsub (Finite (of_int (n p))) (if isFundamental p then Finite 1 else Finite 0))
                (Finite 1)
      else Finite 0)"

text \<open>Everything before the loop: the shape checks, the split of the input row into the
  two half-vectors, the initial values and the first call of the oracle.\<close>

definition initialise :: "collaborators \<Rightarrow> args \<Rightarrow> error + state" where
  "initialise c p =
     (if mxGetM (P_LOOP_IN p) \<noteq> 1 then Inl badarg
      else if N p mod 2 \<noteq> 0 then Inl badarg
      else
        let u = mxGetData (P_LOOP_IN p);
            a = take (N p div 2) u;
            b = take (N p div 2) (drop (N p div 2) u);
            d = initial_discount p
        in case looplength c (N p) a b (lengthFlag p) of
             Inl err \<Rightarrow> Inl err
           | Inr len \<Rightarrow>
               Inr \<lparr>a_storage = a, b_storage = b, discount = d,
                    currentLength = dsub len d, nconv = 0, entr = None,
                    entr0 = Finite (- 1)\<rparr>)"

text \<open>The rescale step: every coordinate and the discount are divided by
  \<^verbatim>\<open>currentLength\<close>.\<close>

definition rescale :: "state \<Rightarrow> state" where
  "rescale s =
     s\<lparr>a_storage := map (\<lambda>x. ddiv x (currentLength s)) (a_storage s),
       b_storage := map (\<lambda>x. ddiv x (currentLength s)) (b_storage s),
       discount := ddiv (discount s) (currentLength s)\<rparr>"

text \<open>The first half of the loop body, up to the assignment of \<^verbatim>\<open>entr\<close>. The two
  \<^verbatim>\<open>printf\<close> lines of the body, guarded by the debug level, assign nothing and are left
  out.\<close>

definition advance :: "collaborators \<Rightarrow> args \<Rightarrow> state \<Rightarrow> error + state" where
  "advance c p s =
     (let s1 = rescale s;
          ab = update_rules c (Ngen p) (n p) (braidword p) (a_storage s1) (b_storage s1);
          s2 = s1\<lparr>a_storage := fst ab, b_storage := snd ab\<rparr>
      in case looplength c (N p) (a_storage s2) (b_storage s2) (lengthFlag p) of
           Inl err \<Rightarrow> Inl err
         | Inr len \<Rightarrow>
             let cl = dsub len (discount s2)
             in Inr (s2\<lparr>currentLength := cl, entr := Some (dlog cl)\<rparr>))"

text \<open>The comparison \<^verbatim>\<open>fabs(entr - entr0) < tol\<close>, for the value \<open>en\<close> of \<^verbatim>\<open>entr\<close>.\<close>

definition below_tol :: "args \<Rightarrow> double \<Rightarrow> state \<Rightarrow> bool" where
  "below_tol p en s = dlt (dfabs (dsub en (entr0 s))) (tol p)"

datatype control = Continue | Break

text \<open>The second half of the loop body: the convergence test, the counter and, unless
  the loop is left, the assignment \<^verbatim>\<open>entr0 = entr\<close>.\<close>

definition convergence_test :: "args \<Rightarrow> double \<Rightarrow> state \<Rightarrow> control \<times> state" where
  "convergence_test p en s =
     (if below_tol p en s then
        (let s' = s\<lparr>nconv := nconv s + 1\<rparr>
         in if nconvreq p \<le> nconv s' then (Break, s')
            else (Continue, s'\<lparr>entr0 := en\<rparr>))
      else if 0 < nconv s then (Continue, s\<lparr>nconv := 0, entr0 := en\<rparr>)
      else (Continue, s\<lparr>entr0 := en\<rparr>))"

definition iteration :: "collaborators \<Rightarrow> args \<Rightarrow> state \<Rightarrow> error + control \<times> state" where
  "iteration c p s =
     (case advance c p s of
        Inl err \<Rightarrow> Inl err
      | Inr s' \<Rightarrow> Inr (convergence_test p (dlog (currentLength s')) s'))"

text \<open>How the \<^verbatim>\<open>for\<close> loop was left: through \<^verbatim>\<open>break\<close>, or because \<^verbatim>\<open>it <= maxit\<close>
  became false.\<close>

datatype loop_exit = ByBreak | ByCondition

function for_loop ::
  "collaborators \<Rightarrow> args \<Rightarrow> int \<Rightarrow> state \<Rightarrow> error + loop_exit \<times> int \<times> state" where
  "for_loop c p it s =
     (if it \<le> maxit p then
        (case iteration c p s of
           Inl err \<Rightarrow> Inl err
         | Inr (Break, s') \<Rightarrow> Inr (ByBreak, it, s')
         | Inr (Continue, s') \<Rightarrow>
             if it = INT_MAX then Inl int_overflow else for_loop c p (it + 1) s')
      else Inr (ByCondition, it, s))"
  by pat_completeness auto
termination
  by (relation "measure (\<lambda>(c, p, it, s). nat (maxit p + 1 - it))") auto

text \<open>The whole run up to the end of the loop.\<close>

definition run :: "collaborators \<Rightarrow> args \<Rightarrow> error + loop_exit \<times> int \<times> state" where
  "run c p = (case initialise c p of Inl err \<Rightarrow> Inl err | Inr s0 \<Rightarrow> for_loop c p 1 s0)"

text \<open>The three results: \<^verbatim>\<open>entr\<close>, \<^verbatim>\<open>it\<close> and the row \<^verbatim>\<open>a[1..N/2]\<close>, \<^verbatim>\<open>b[1..N/2]\<close>.\<close>

definition mexFunction :: "collaborators \<Rightarrow> args \<Rightarrow> error + outputs" where
  "mexFunction c p =
     (case run c p of
        Inl err \<Rightarrow> Inl err
      | Inr (x, it, s) \<Rightarrow>
          Inr \<lparr>P_ENTROPY = entr s, P_ITERATES = it,
               P_LOOP_OUT = a_storage s @ b_storage s\<rparr>)"

section \<open>Executions of the loop\<close>

text \<open>
  The head of the loop after \<open>k\<close> complete iterations, none of which left the loop or
  raised: the outcomes of the \<open>k\<close> comparisons (the latest first), the value of \<^verbatim>\<open>it\<close>
  and the state. \<open>None\<close> when the run does not get that far.
\<close>

fun loop_head ::
  "collaborators \<Rightarrow> args \<Rightarrow> state \<Rightarrow> nat \<Rightarrow> (bool list \<times> int \<times> state) option" where
  "loop_head c p s0 0 = Some ([], 1, s0)"
| "loop_head c p s0 (Suc k) =
     (case loop_head c p s0 k of
        None \<Rightarrow> None
      | Some (hist, it, s) \<Rightarrow>
          if it \<le> maxit p \<and> it \<noteq> INT_MAX then
            (case advance c p s of
               Inl err \<Rightarrow> None
             | Inr s1 \<Rightarrow>
                 (case convergence_test p (dlog (currentLength s1)) s1 of
                    (Break, s') \<Rightarrow> None
                  | (Continue, s') \<Rightarrow>
                      Some (below_tol p (dlog (currentLength s1)) s1 # hist, it + 1, s')))
          else None)"

text \<open>The number of comparisons below the tolerance in a row, counted back from the
  latest one.\<close>

fun streak :: "bool list \<Rightarrow> nat" where
  "streak [] = 0"
| "streak (x # xs) = (if x then Suc (streak xs) else 0)"

section \<open>Collaborators outside the source file\<close>

text \<open>
  Modelled from the spec: \<^verbatim>\<open>l2norm2\<close> of \<^verbatim>\<open>loop_helper.hpp\<close>, which is not among the
  sources. The spec calls the third metric the Euclidean norm of the coordinate vector;
  \<^verbatim>\<open>looplength\<close> takes the square root, so \<^verbatim>\<open>l2norm2\<close> is the sum of the squares of all
  coordinates.
\<close>

definition l2norm2_spec :: "nat \<Rightarrow> double list \<Rightarrow> double list \<Rightarrow> double" where
  "l2norm2_spec sz a b =
     foldl (\<lambda>l2 (x, y). dadd l2 (dadd (dmul x x) (dmul y y))) (Finite 0) (zip a b)"

text \<open>
  Modelled from the spec: \<^verbatim>\<open>update_rules\<close> of \<^verbatim>\<open>update_rules.hpp\<close>, which is not among
  the sources. The spec says it applies the full generator sequence once to the
  coordinates; the action \<open>act\<close> of a single generator stays a parameter. On the empty
  sequence nothing is applied.
\<close>

definition update_rules_spec ::
  "(int \<Rightarrow> int \<Rightarrow> double list \<times> double list \<Rightarrow> double list \<times> double list)
   \<Rightarrow> nat \<Rightarrow> int \<Rightarrow> int list \<Rightarrow> double list \<Rightarrow> double list \<Rightarrow> double list \<times> double list" where
  "update_rules_spec act ngen np word a b = fold (act np) (take ngen word) (a, b)"

text \<open>A stand-in length for the two metrics of \<^verbatim>\<open>loop_helper.hpp\<close> the spec does not
  describe: the sum of the absolute values of the coordinates, which is never negative.\<close>

definition abs_sum :: "nat \<Rightarrow> double list \<Rightarrow> double list \<Rightarrow> double" where
  "abs_sum sz a b = foldl (\<lambda>l x. dadd l (dfabs x)) (Finite 0) (a @ b)"

text \<open>A length function that breaks the contract of the metrics: its value is negative.\<close>

definition negative_length :: "nat \<Rightarrow> double list \<Rightarrow> double list \<Rightarrow> double" where
  "negative_length sz a b = Finite (- 4)"

text \<open>Collaborators for concrete runs: a generator action \<open>act\<close>, the stand-in for the two
  undescribed metrics and the Euclidean metric.\<close>

definition test_collaborators ::
  "(int \<Rightarrow> int \<Rightarrow> double list \<times> double list \<Rightarrow> double list \<times> double list) \<Rightarrow> collaborators" where
  "test_collaborators act =
     \<lparr>update_rules = update_rules_spec act, intaxis = abs_sum, minlength = abs_sum,
      l2norm2 = l2norm2_spec\<rparr>"

text \<open>The same with a generator action that leaves the coordinates as they are.\<close>

definition idle_collaborators :: collaborators where
  "idle_collaborators = test_collaborators (\<lambda>np g ab. ab)"

text \<open>
  Two generator actions for concrete runs with a braid word of one generator. The first
  shrinks every coordinate by the factor \<open>1/e\<close>, so that every log-growth value is \<open>-1\<close>.
  The second takes the loop \<open>(1, 0)\<close> to \<open>(1/2, 1/2)\<close>, that one to \<open>(0, 1)\<close> and any
  other to \<open>(e, 0)\<close>: under the stand-in length the log-growth values are
  \<open>0, 0, 1, 0, 0, 1, \<dots>\<close>.
\<close>

definition shrinking_action ::
  "int \<Rightarrow> int \<Rightarrow> double list \<times> double list \<Rightarrow> double list \<times> double list" where
  "shrinking_action np g ab =
     (map (\<lambda>x. dmul x (Finite (exp (- 1)))) (fst ab),
      map (\<lambda>x. dmul x (Finite (exp (- 1)))) (snd ab))"

definition shrinking_collaborators :: collaborators where
  "shrinking_collaborators = test_collaborators shrinking_action"

definition cycling_action ::
  "int \<Rightarrow> int \<Rightarrow> double list \<times> double list \<Rightarrow> double list \<times> double list" where
  "cycling_action np g ab =
     (if ab = ([Finite 1], [Finite 0]) then ([Finite (1 / 2)], [Finite (1 / 2)])
      else if ab = ([Finite (1 / 2)], [Finite (1 / 2)]) then ([Finite 0], [Finite 1])
      else ([Finite (exp 1)], [Finite 0]))"

definition cycling_collaborators :: collaborators where
  "cycling_collaborators = test_collaborators cycling_action"

text \<open>A call with a one-row loop \<open>u\<close> and the braid word \<open>w\<close>.\<close>

definition call ::
  "int list \<Rightarrow> double list \<Rightarrow> int \<Rightarrow> int \<Rightarrow> double \<Rightarrow> int \<Rightarrow> bool \<Rightarrow> args" where
  "call w u mi nc t flag fund =
     \<lparr>P_BRAID = \<lparr>mxGetM = (if w = [] then 0 else 1), mxGetN = length w, mxGetData = w\<rparr>,
      P_LOOP_IN = \<lparr>mxGetM = 1, mxGetN = length u, mxGetData = u\<rparr>,
      maxit = mi, nconvreq = nc, tol = t, lengthFlag = flag, isFundamental = fund\<rparr>"

text \<open>
  The longest run: the empty braid on the row \<open>[1, 0]\<close> under the Euclidean metric with
  \<open>maxit = nconvreq = INT_MAX\<close>. Its first comparison is against the sentinel and fails,
  every later one succeeds, so the counter is always one short of \<open>nconvreq\<close>. \<open>first_done\<close>
  is the state after the first half of the first iteration, \<open>steady j\<close> the state at a later
  loop head with the counter \<open>j\<close>.
\<close>

definition longest_call :: args where
  "longest_call = call [] [Finite 1, Finite 0] 2147483647 2147483647 (Finite (1 / 10 ^ 9)) 2 False"

definition first_done :: state where
  "first_done =
     \<lparr>a_storage = [Finite 1], b_storage = [Finite 0], discount = Finite 0,
      currentLength = Finite 1, nconv = 0, entr = Some (Finite 0), entr0 = Finite (- 1)\<rparr>"

definition steady :: "int \<Rightarrow> state" where
  "steady j =
     \<lparr>a_storage = [Finite 1], b_storage = [Finite 0], discount = Finite 0,
      currentLength = Finite 1, nconv = j, entr = Some (Finite 0), entr0 = Finite 0\<rparr>"

section \<open>Facts about the model\<close>

declare for_loop.simps [simp del]

lemmas model_defs = mexFunction_def run_def initialise_def N_def n_def Ngen_def braidword_def
  initial_discount_def looplength_def metric_value_def iteration_def advance_def rescale_def
  convergence_test_def below_tol_def INT_MAX_def Let_def

lemmas test_defs = call_def idle_collaborators_def shrinking_collaborators_def
  shrinking_action_def cycling_collaborators_def cycling_action_def test_collaborators_def
  l2norm2_spec_def update_rules_spec_def abs_sum_def negative_length_def

subsection \<open>Arithmetic on doubles\<close>

lemma not_negative_dge: "\<not> dlt x (Finite 0) \<Longrightarrow> x \<noteq> NaN \<Longrightarrow> dge x (Finite 0)"
  by (cases x) simp_all

lemma dsub_zero_not_negative:
  "\<not> dlt x (Finite 0) \<Longrightarrow> d = Finite 0 \<or> d = NaN \<Longrightarrow> \<not> dlt (dsub x d) (Finite 0)"
  by (cases x) auto

lemma ddiv_zero_or_nan:
  "d = Finite 0 \<or> d = NaN \<Longrightarrow> ddiv d x = Finite 0 \<or> ddiv d x = NaN"
  by (cases x) auto

lemma ddiv_zero_stays:
  "x \<noteq> Finite 0 \<Longrightarrow> x \<noteq> NaN \<Longrightarrow> ddiv (Finite 0) x = Finite 0"
  by (cases x) auto

lemma dsqrt_not_negative: "\<not> dlt (dsqrt x) (Finite 0)"
  by (cases x) simp_all

subsection \<open>The steps of one iteration\<close>

lemma looplength_not_negative:
  "looplength c sz a b flag = Inr r \<Longrightarrow> \<not> dlt r (Finite 0)"
  by (auto simp: looplength_def split: sum.splits if_splits)

lemma initialise_fields:
  assumes "initialise c p = Inr s0"
  shows "discount s0 = initial_discount p" and "nconv s0 = 0" and "entr0 s0 = Finite (- 1)"
    and "entr s0 = None"
    and "\<exists>len. looplength c (N p) (a_storage s0) (b_storage s0) (lengthFlag p) = Inr len \<and>
           currentLength s0 = dsub len (discount s0)"
    and "mxGetM (P_LOOP_IN p) = 1" and "N p mod 2 = 0"
  using assms
  by (auto simp: initialise_def Let_def split: if_splits sum.splits)

lemma advance_fields:
  assumes "advance c p s = Inr s1"
  shows "nconv s1 = nconv s" and "entr0 s1 = entr0 s"
    and "discount s1 = ddiv (discount s) (currentLength s)"
    and "entr s1 = Some (dlog (currentLength s1))"
    and "(a_storage s1, b_storage s1) =
           update_rules c (Ngen p) (n p) (braidword p)
             (map (\<lambda>x. ddiv x (currentLength s)) (a_storage s))
             (map (\<lambda>x. ddiv x (currentLength s)) (b_storage s))"
    and "\<exists>len. looplength c (N p) (a_storage s1) (b_storage s1) (lengthFlag p) = Inr len \<and>
           currentLength s1 = dsub len (discount s1)"
  using assms
  by (auto simp: advance_def rescale_def Let_def split: sum.splits)

lemma convergence_test_cases:
  "convergence_test p en s =
     (if below_tol p en s then
        (if nconvreq p \<le> nconv s + 1 then (Break, s\<lparr>nconv := nconv s + 1\<rparr>)
         else (Continue, s\<lparr>nconv := nconv s + 1, entr0 := en\<rparr>))
      else (Continue, s\<lparr>nconv := (if 0 < nconv s then 0 else nconv s), entr0 := en\<rparr>))"
  by (simp add: convergence_test_def Let_def)

lemma convergence_test_keeps:
  "convergence_test p en s = (ctl, s') \<Longrightarrow>
     discount s' = discount s \<and> currentLength s' = currentLength s \<and>
     a_storage s' = a_storage s \<and> b_storage s' = b_storage s \<and> entr s' = entr s"
  by (auto simp: convergence_test_cases split: if_splits)

lemma iteration_split:
  assumes "iteration c p s = Inr (ctl, s')"
  obtains s1 where "advance c p s = Inr s1"
    and "convergence_test p (dlog (currentLength s1)) s1 = (ctl, s')"
  using assms by (auto simp: iteration_def split: sum.splits)

subsection \<open>The loop\<close>

text \<open>A run that leaves the loop through \<^verbatim>\<open>break\<close> does so with \<^verbatim>\<open>it\<close> within the budget;
  one that leaves it through the loop condition does so with \<^verbatim>\<open>it = maxit + 1\<close>.\<close>

lemma for_loop_exit:
  "for_loop c p it s = Inr (x, it', s') \<Longrightarrow> it \<le> maxit p + 1 \<Longrightarrow>
     (x = ByBreak \<longrightarrow> it \<le> it' \<and> it' \<le> maxit p) \<and>
     (x = ByCondition \<longrightarrow> it' = maxit p + 1)"
proof (induction c p it s rule: for_loop.induct)
  case (1 c p it s)
  show ?case
  proof (cases "it \<le> maxit p")
    case False
    with "1.prems" show ?thesis by (simp add: for_loop.simps)
  next
    case True
    note le = this
    show ?thesis
    proof (cases "iteration c p s")
      case (Inl err)
      with le "1.prems" show ?thesis by (simp add: for_loop.simps)
    next
      case (Inr r)
      obtain ctl s1 where r: "r = (ctl, s1)" by (cases r)
      show ?thesis
      proof (cases ctl)
        case Break
        with le Inr r "1.prems" show ?thesis by (simp add: for_loop.simps)
      next
        case Continue
        show ?thesis
        proof (cases "it = INT_MAX")
          case True
          with le Inr r Continue "1.prems" show ?thesis by (simp add: for_loop.simps)
        next
          case False
          with le Inr r Continue "1.prems"
          have rec: "for_loop c p (it + 1) s1 = Inr (x, it', s')"
            by (simp add: for_loop.simps)
          from "1.IH" [OF le Inr r [symmetric] Continue False rec] le
          show ?thesis by auto
        qed
      qed
    qed
  qed
qed

lemma loop_head_Suc:
  assumes "loop_head c p s0 (Suc k) = Some (hist, it, s)"
  obtains hist0 it0 t s1 where
    "loop_head c p s0 k = Some (hist0, it0, t)" "it0 \<le> maxit p" "it0 \<noteq> INT_MAX"
    "advance c p t = Inr s1"
    "convergence_test p (dlog (currentLength s1)) s1 = (Continue, s)"
    "it = it0 + 1" "hist = below_tol p (dlog (currentLength s1)) s1 # hist0"
  using assms
  by (auto split: option.splits if_splits sum.splits prod.splits control.splits)

text \<open>The loop started at a head it reaches gives the result of the whole loop; the head
  after \<open>k\<close> iterations has \<^verbatim>\<open>it = k + 1\<close>.\<close>

lemma loop_head_for_loop:
  "loop_head c p s0 k = Some (hist, it, s) \<Longrightarrow>
     for_loop c p 1 s0 = for_loop c p it s \<and> it = int k + 1 \<and> length hist = k"
proof (induction k arbitrary: hist it s)
  case 0
  then show ?case by simp
next
  case (Suc k)
  from Suc.prems obtain hist0 it0 t s1 where
    prev: "loop_head c p s0 k = Some (hist0, it0, t)" and
    le: "it0 \<le> maxit p" and ne: "it0 \<noteq> INT_MAX" and adv: "advance c p t = Inr s1" and
    ct: "convergence_test p (dlog (currentLength s1)) s1 = (Continue, s)" and
    it: "it = it0 + 1" and hist: "hist = below_tol p (dlog (currentLength s1)) s1 # hist0"
    by (rule loop_head_Suc)
  from Suc.IH [OF prev] have
    IH: "for_loop c p 1 s0 = for_loop c p it0 t" "it0 = int k + 1" "length hist0 = k"
    by simp_all
  have "for_loop c p it0 t = for_loop c p (it0 + 1) s"
    using le ne adv ct by (subst for_loop.simps) (simp add: iteration_def)
  with IH it hist show ?case by simp
qed

text \<open>With \<^verbatim>\<open>maxit = INT_MAX\<close> the head after \<^verbatim>\<open>maxit\<close> iterations is not reached: the
  increment of \<^verbatim>\<open>it\<close> after the last of them would overflow.\<close>

lemma no_head_after_INT_MAX:
  assumes "maxit p = INT_MAX"
  shows "loop_head c p s0 (nat (maxit p)) = None"
proof (rule ccontr)
  assume "loop_head c p s0 (nat (maxit p)) \<noteq> None"
  then obtain hist it s where h: "loop_head c p s0 (nat (maxit p)) = Some (hist, it, s)"
    by auto
  from assms obtain k where k: "nat (maxit p) = Suc k" "int k + 1 = INT_MAX"
    by (cases "nat (maxit p)") (auto simp: INT_MAX_def)
  from h k(1) have "loop_head c p s0 (Suc k) = Some (hist, it, s)" by simp
  then obtain hist0 it0 t where
    prev: "loop_head c p s0 k = Some (hist0, it0, t)" and ne: "it0 \<noteq> INT_MAX"
    by (rule loop_head_Suc)
  from loop_head_for_loop [OF prev] k(2) ne show False by simp
qed

text \<open>At every loop head the counter is the current streak, and it has not reached the
  required number.\<close>

lemma nconv_streak:
  "loop_head c p s0 k = Some (hist, it, s) \<Longrightarrow> nconv s0 = 0 \<Longrightarrow> nconv s = int (streak hist)"
proof (induction k arbitrary: hist it s)
  case 0
  then show ?case by simp
next
  case (Suc k)
  from Suc.prems(1) obtain hist0 it0 t s1 where
    prev: "loop_head c p s0 k = Some (hist0, it0, t)" and
    adv: "advance c p t = Inr s1" and
    ct: "convergence_test p (dlog (currentLength s1)) s1 = (Continue, s)" and
    hist: "hist = below_tol p (dlog (currentLength s1)) s1 # hist0"
    by (rule loop_head_Suc)
  from Suc.IH [OF prev Suc.prems(2)] advance_fields(1) [OF adv]
  have "nconv s1 = int (streak hist0)" by simp
  with ct hist show ?case
    by (auto simp: convergence_test_cases split: if_splits)
qed

lemma streak_le_length: "streak hist \<le> length hist"
  by (induction hist) auto

text \<open>The counter stays below \<^verbatim>\<open>it\<close>, so that \<^verbatim>\<open>++nconv\<close> cannot overflow before
  \<^verbatim>\<open>++it\<close> does.\<close>

lemma nconv_less_it:
  assumes "loop_head c p s0 k = Some (hist, it, s)" and "nconv s0 = 0"
  shows "nconv s < it"
proof -
  from loop_head_for_loop [OF assms(1)] have "it = int k + 1" "length hist = k"
    by simp_all
  with nconv_streak [OF assms] streak_le_length [of hist] show ?thesis
    by simp
qed

lemma nconv_below_required:
  "loop_head c p s0 k = Some (hist, it, s) \<Longrightarrow> nconv s0 = 0 \<Longrightarrow> 1 \<le> nconvreq p \<Longrightarrow>
     nconv s < nconvreq p"
proof (induction k arbitrary: hist it s)
  case 0
  then show ?case by simp
next
  case (Suc k)
  from Suc.prems(1) obtain hist0 it0 t s1 where
    prev: "loop_head c p s0 k = Some (hist0, it0, t)" and
    adv: "advance c p t = Inr s1" and
    ct: "convergence_test p (dlog (currentLength s1)) s1 = (Continue, s)"
    by (rule loop_head_Suc)
  from nconv_streak [OF prev Suc.prems(2)] advance_fields(1) [OF adv]
  have "0 \<le> nconv s1" by simp
  with ct Suc.prems(3) show ?case
    by (auto simp: convergence_test_cases split: if_splits)
qed

text \<open>The loop ends through \<^verbatim>\<open>break\<close> in the very iteration it starts with exactly when
  the convergence test of that iteration says so.\<close>

lemma for_loop_break_now:
  assumes "it \<le> maxit p" and "advance c p s = Inr s1"
  shows "(\<exists>sf. for_loop c p it s = Inr (ByBreak, it, sf)) \<longleftrightarrow>
         fst (convergence_test p (dlog (currentLength s1)) s1) = Break"
proof (cases "convergence_test p (dlog (currentLength s1)) s1")
  case (Pair ctl s')
  show ?thesis
  proof (cases ctl)
    case Break
    with Pair assms show ?thesis
      by (subst for_loop.simps) (simp add: iteration_def)
  next
    case Continue
    have "for_loop c p it s \<noteq> Inr (ByBreak, it, sf)" for sf
    proof (cases "it = INT_MAX")
      case True
      with Pair Continue assms show ?thesis
        by (subst for_loop.simps) (simp add: iteration_def)
    next
      case False
      with Pair Continue assms have
        eq: "for_loop c p it s = for_loop c p (it + 1) s'"
        by (subst for_loop.simps) (simp add: iteration_def)
      show ?thesis
      proof
        assume "for_loop c p it s = Inr (ByBreak, it, sf)"
        with eq have "for_loop c p (it + 1) s' = Inr (ByBreak, it, sf)" by simp
        from for_loop_exit [OF this] assms(1) show False by simp
      qed
    qed
    with Pair Continue show ?thesis by simp
  qed
qed

text \<open>A run that ends through \<^verbatim>\<open>break\<close> does so in an iteration that starts at a head
  the loop reaches.\<close>

lemma for_loop_break_head:
  "for_loop c p it s = Inr (ByBreak, j, sf) \<Longrightarrow> loop_head c p s0 k = Some (hist, it, s) \<Longrightarrow>
     \<exists>k' hist' s' s1. loop_head c p s0 k' = Some (hist', j, s') \<and> j \<le> maxit p \<and>
        advance c p s' = Inr s1 \<and>
        convergence_test p (dlog (currentLength s1)) s1 = (Break, sf)"
proof (induction c p it s arbitrary: k hist rule: for_loop.induct)
  case (1 c p it s)
  from "1.prems"(1) have le: "it \<le> maxit p"
    by (subst (asm) for_loop.simps) (simp split: if_splits)
  from "1.prems"(1) le obtain ctl s' where it: "iteration c p s = Inr (ctl, s')"
    by (subst (asm) for_loop.simps) (auto split: sum.splits)
  then obtain s1 where adv: "advance c p s = Inr s1" and
    ct: "convergence_test p (dlog (currentLength s1)) s1 = (ctl, s')"
    by (rule iteration_split)
  show ?case
  proof (cases ctl)
    case Break
    with "1.prems"(1) le it have "j = it" "sf = s'"
      by (subst (asm) for_loop.simps, simp)+
    with "1.prems"(2) le adv ct Break show ?thesis by blast
  next
    case Continue
    with "1.prems"(1) le it have ne: "it \<noteq> INT_MAX" and
      rec: "for_loop c p (it + 1) s' = Inr (ByBreak, j, sf)"
      by (subst (asm) for_loop.simps, simp split: if_splits)+
    from "1.prems"(2) le ne adv ct Continue have
      "loop_head c p s0 (Suc k) =
         Some (below_tol p (dlog (currentLength s1)) s1 # hist, it + 1, s')"
      by simp
    from "1.IH" [OF le it refl Continue ne rec this] show ?thesis .
  qed
qed

text \<open>When the loop ends through \<^verbatim>\<open>break\<close>, the counter is \<open>nconvreq\<close> and the last
  \<open>nconvreq\<close> comparisons were below the tolerance.\<close>

lemma break_means_full_streak:
  assumes "for_loop c p 1 s0 = Inr (ByBreak, j, sf)" and "nconv s0 = 0" and "1 \<le> nconvreq p"
  shows "nconv sf = nconvreq p \<and>
     (\<exists>k' hist'. (\<exists>s'. loop_head c p s0 k' = Some (hist', j, s')) \<and>
        int (streak (True # hist')) = nconvreq p)"
proof -
  have "loop_head c p s0 0 = Some ([], 1, s0)" by simp
  from for_loop_break_head [OF assms(1) this] obtain k' hist' s' s1 where
    head: "loop_head c p s0 k' = Some (hist', j, s')" and
    adv: "advance c p s' = Inr s1" and
    ct: "convergence_test p (dlog (currentLength s1)) s1 = (Break, sf)"
    by blast
  have n1: "nconv s1 = nconv s'" by (rule advance_fields(1) [OF adv])
  have st: "nconv s' = int (streak hist')" by (rule nconv_streak [OF head assms(2)])
  have lt: "nconv s' < nconvreq p" by (rule nconv_below_required [OF head assms(2,3)])
  from ct n1 have "nconvreq p \<le> nconv s' + 1" "nconv sf = nconv s' + 1"
    by (auto simp: convergence_test_cases split: if_splits)
  with lt st have "nconv sf = nconvreq p" "int (streak (True # hist')) = nconvreq p"
    by simp_all
  with head show ?thesis by blast
qed

text \<open>Without a discount (any selector but 0) the discount is 0 or NaN at every loop
  head, and \<^verbatim>\<open>currentLength\<close> is not negative there.\<close>

lemma plain_metric_invariant:
  assumes "lengthFlag p \<noteq> 0" and "initialise c p = Inr s0"
  shows "loop_head c p s0 k = Some (hist, it, s) \<Longrightarrow>
     (discount s = Finite 0 \<or> discount s = NaN) \<and> \<not> dlt (currentLength s) (Finite 0)"
proof (induction k arbitrary: hist it s)
  case 0
  then have s: "s = s0" by simp
  from assms(1) initialise_fields(1) [OF assms(2)] have d: "discount s0 = Finite 0"
    by (simp add: initial_discount_def)
  from initialise_fields(5) [OF assms(2)] obtain len where
    "looplength c (N p) (a_storage s0) (b_storage s0) (lengthFlag p) = Inr len"
    "currentLength s0 = dsub len (discount s0)" by blast
  with d looplength_not_negative dsub_zero_not_negative [of len "Finite 0"] s
  show ?case by auto
next
  case (Suc k)
  from Suc.prems obtain hist0 it0 t s1 where
    prev: "loop_head c p s0 k = Some (hist0, it0, t)" and
    adv: "advance c p t = Inr s1" and
    ct: "convergence_test p (dlog (currentLength s1)) s1 = (Continue, s)"
    by (rule loop_head_Suc)
  from Suc.IH [OF prev] have "discount t = Finite 0 \<or> discount t = NaN" by simp
  from ddiv_zero_or_nan [OF this] advance_fields(3) [OF adv]
  have d: "discount s1 = Finite 0 \<or> discount s1 = NaN" by simp
  from advance_fields(6) [OF adv] obtain len where
    "looplength c (N p) (a_storage s1) (b_storage s1) (lengthFlag p) = Inr len"
    "currentLength s1 = dsub len (discount s1)" by blast
  with looplength_not_negative dsub_zero_not_negative [OF _ d]
  have "\<not> dlt (currentLength s1) (Finite 0)" by auto
  with d convergence_test_keeps [OF ct] show ?case by simp
qed

text \<open>Below \<^verbatim>\<open>INT_MAX\<close>, iterations that all run and go on reach every loop head up to the
  one after \<open>maxit\<close> iterations.\<close>

lemma heads_of_continuing_run:
  assumes "maxit p < INT_MAX"
    and "\<forall>k < nat (maxit p). \<exists>hist it s s'.
           loop_head c p s0 k = Some (hist, it, s) \<and> iteration c p s = Inr (Continue, s')"
  shows "k \<le> nat (maxit p) \<Longrightarrow> \<exists>hist s. loop_head c p s0 k = Some (hist, int k + 1, s)"
proof (induction k)
  case 0
  show ?case by simp
next
  case (Suc k)
  then have lt: "k < nat (maxit p)" by simp
  with assms(2) obtain hist it s s' where
    h: "loop_head c p s0 k = Some (hist, it, s)" and
    i: "iteration c p s = Inr (Continue, s')" by blast
  from loop_head_for_loop [OF h] have it: "it = int k + 1" by simp
  with lt assms(1) have b: "it \<le> maxit p" "it \<noteq> INT_MAX" by simp_all
  from i obtain s1 where "advance c p s = Inr s1"
    "convergence_test p (dlog (currentLength s1)) s1 = (Continue, s')"
    by (rule iteration_split)
  with h b it show ?case by simp
qed

subsection \<open>The longest run\<close>

lemma longest_call_initialise:
  "initialise idle_collaborators longest_call =
     Inr \<lparr>a_storage = [Finite 1], b_storage = [Finite 0], discount = Finite 0,
          currentLength = Finite 1, nconv = 0, entr = None, entr0 = Finite (- 1)\<rparr>"
  by (simp add: longest_call_def model_defs test_defs)

lemma longest_call_first:
  "advance idle_collaborators longest_call
     \<lparr>a_storage = [Finite 1], b_storage = [Finite 0], discount = Finite 0,
      currentLength = Finite 1, nconv = 0, entr = None, entr0 = Finite (- 1)\<rparr> =
     Inr first_done \<and>
   \<not> below_tol longest_call (dlog (currentLength first_done)) first_done \<and>
   convergence_test longest_call (dlog (currentLength first_done)) first_done =
     (Continue, steady 0)"
  by (simp add: longest_call_def steady_def first_done_def model_defs test_defs)

lemma longest_call_steady:
  "j + 1 < 2147483647 \<Longrightarrow>
     advance idle_collaborators longest_call (steady j) = Inr (steady j) \<and>
     below_tol longest_call (dlog (currentLength (steady j))) (steady j) \<and>
     convergence_test longest_call (dlog (currentLength (steady j))) (steady j) =
       (Continue, steady (j + 1))"
  by (simp add: longest_call_def steady_def model_defs test_defs)

lemma longest_call_head:
  "k < 2147483646 \<Longrightarrow>
     loop_head idle_collaborators longest_call
       \<lparr>a_storage = [Finite 1], b_storage = [Finite 0], discount = Finite 0,
        currentLength = Finite 1, nconv = 0, entr = None, entr0 = Finite (- 1)\<rparr> (Suc k) =
     Some (replicate k True @ [False], int k + 2, steady (int k))"
proof (induction k)
  case 0
  have "maxit longest_call = 2147483647" by (simp add: longest_call_def call_def)
  with longest_call_first show ?case
    by (simp add: INT_MAX_def)
next
  case (Suc k)
  then have IH: "loop_head idle_collaborators longest_call
       \<lparr>a_storage = [Finite 1], b_storage = [Finite 0], discount = Finite 0,
        currentLength = Finite 1, nconv = 0, entr = None, entr0 = Finite (- 1)\<rparr> (Suc k) =
     Some (replicate k True @ [False], int k + 2, steady (int k))" by simp
  have m: "maxit longest_call = 2147483647" by (simp add: longest_call_def call_def)
  from Suc.prems have j: "int k + 1 < 2147483647" by simp
  from Suc.prems have it: "int k + 2 \<le> 2147483647" "int k + 2 \<noteq> INT_MAX"
    by (simp_all add: INT_MAX_def)
  from longest_call_steady [OF j] have
    a: "advance idle_collaborators longest_call (steady (int k)) = Inr (steady (int k))" and
    b: "below_tol longest_call (dlog (currentLength (steady (int k)))) (steady (int k))" and
    c: "convergence_test longest_call (dlog (currentLength (steady (int k)))) (steady (int k)) =
       (Continue, steady (int k + 1))" by simp_all
  have "loop_head idle_collaborators longest_call
       \<lparr>a_storage = [Finite 1], b_storage = [Finite 0], discount = Finite 0,
        currentLength = Finite 1, nconv = 0, entr = None, entr0 = Finite (- 1)\<rparr> (Suc (Suc k)) =
     Some (True # (replicate k True @ [False]), (int k + 2) + 1, steady (int k + 1))"
    by (subst loop_head.simps(2), subst IH) (simp add: m it a b c del: loop_head.simps)
  then show ?case by (simp add: add.commute)
qed

section \<open>The claims\<close>

subsection \<open>C1: the sign of the divisor\<close>

text \<open>
  C1 says that \<^verbatim>\<open>currentLength\<close>, the value \<^verbatim>\<open>looplength(N,a,b,lengthFlag) - discount\<close>
  that the next rescale step divides by, is never below zero. It can be below zero under
  the intersection-number metric: the oracle checks its own value, and the discount is
  subtracted afterwards. For the row \<open>[0, 0]\<close> and a length of 0 the first divisor is
  \<open>0 - 2 = -2\<close>, and the call goes on to return. Under the Euclidean metric the same row
  gives a first divisor 0 and then NaN, which is not \<open>\<ge> 0\<close> either.
\<close>

theorem negative_divisor_counterexample:
  "initialise idle_collaborators (call [] [Finite 0, Finite 0] 5 1 (Finite (1 / 10 ^ 9)) 0 False) =
     Inr \<lparr>a_storage = [Finite 0], b_storage = [Finite 0], discount = Finite 2,
          currentLength = Finite (- 2), nconv = 0, entr = None, entr0 = Finite (- 1)\<rparr> \<and>
   dlt (Finite (- 2)) (Finite 0) \<and>
   mexFunction idle_collaborators (call [] [Finite 0, Finite 0] 5 1 (Finite (1 / 10 ^ 9)) 0 False) =
     Inr \<lparr>P_ENTROPY = Some (Finite 0), P_ITERATES = 2, P_LOOP_OUT = [Finite 0, Finite 0]\<rparr> \<and>
   run idle_collaborators (call [] [Finite 0, Finite 0] 1 1 (Finite (1 / 10 ^ 9)) 2 False) =
     Inr (ByCondition, 2,
          \<lparr>a_storage = [NaN], b_storage = [NaN], discount = NaN,
           currentLength = NaN, nconv = 0, entr = Some NaN, entr0 = NaN\<rparr>) \<and>
   \<not> dge NaN (Finite 0)"
  by (simp add: model_defs test_defs for_loop.simps)

text \<open>
  C1, amended. For every metric selector other than 0, at the head of the loop after any
  number of iterations, \<^verbatim>\<open>currentLength\<close> is not negative: it is \<open>\<ge> 0\<close> unless it is NaN.
\<close>

theorem divisor_not_negative_without_discount:
  assumes "lengthFlag p \<noteq> 0" and "initialise c p = Inr s0"
    and "loop_head c p s0 k = Some (hist, it, s)"
  shows "\<not> dlt (currentLength s) (Finite 0) \<and>
         (currentLength s \<noteq> NaN \<longrightarrow> dge (currentLength s) (Finite 0))"
  using plain_metric_invariant [OF assms] not_negative_dge by blast

theorem divisor_not_negative_without_discount_witness:
  "lengthFlag (call [] [Finite 1, Finite 0] 5 1 (Finite (1 / 10 ^ 9)) 2 False) \<noteq> 0 \<and>
   loop_head idle_collaborators (call [] [Finite 1, Finite 0] 5 1 (Finite (1 / 10 ^ 9)) 2 False)
     \<lparr>a_storage = [Finite 1], b_storage = [Finite 0], discount = Finite 0,
      currentLength = Finite 1, nconv = 0, entr = None, entr0 = Finite (- 1)\<rparr> (Suc 0) =
     Some ([False], 2,
       \<lparr>a_storage = [Finite 1], b_storage = [Finite 0], discount = Finite 0,
        currentLength = Finite 1, nconv = 0, entr = Some (Finite 0), entr0 = Finite 0\<rparr>) \<and>
   \<not> dlt (Finite 1) (Finite 0) \<and> dge (Finite 1) (Finite 0)"
proof -
  let ?p = "call [] [Finite 1, Finite 0] 5 1 (Finite (1 / 10 ^ 9)) 2 False"
  let ?init = "\<lparr>a_storage = [Finite 1], b_storage = [Finite 0], discount = Finite 0,
      currentLength = Finite 1, nconv = 0, entr = None, entr0 = Finite (- 1)\<rparr>"
  let ?head = "\<lparr>a_storage = [Finite 1], b_storage = [Finite 0], discount = Finite 0,
      currentLength = Finite 1, nconv = 0, entr = Some (Finite 0), entr0 = Finite 0\<rparr>"
  have f: "lengthFlag ?p \<noteq> 0" by (simp add: call_def)
  have i: "initialise idle_collaborators ?p = Inr ?init"
    by (simp add: model_defs test_defs)
  have h: "loop_head idle_collaborators ?p ?init (Suc 0) = Some ([False], 2, ?head)"
    by (simp add: model_defs test_defs)
  from divisor_not_negative_without_discount [OF f i h] f h show ?thesis
    by simp
qed

subsection \<open>C2: the empty braid under the Euclidean metric\<close>

text \<open>
  C2. The empty generator sequence on the row \<open>[1, 0]\<close> under the Euclidean metric, with
  \<open>maxit = 5\<close>, \<open>nconvreq = 1\<close>, \<open>tol = 1e-9\<close> and no fundamental loop: the loop is left
  through \<^verbatim>\<open>break\<close> in iteration 2, the first iteration that compares two computed
  log-growth values, and the results are the entropy \<open>ln 1 = 0\<close>, the iteration count 2
  and the row \<open>[1, 0]\<close>. The other two metrics and the action of a single generator are
  arbitrary.
\<close>

theorem empty_braid_euclidean_scenario:
  "run (c\<lparr>update_rules := update_rules_spec act, l2norm2 := l2norm2_spec\<rparr>)
       (call [] [Finite 1, Finite 0] 5 1 (Finite (1 / 10 ^ 9)) 2 False) =
     Inr (ByBreak, 2,
          \<lparr>a_storage = [Finite 1], b_storage = [Finite 0], discount = Finite 0,
           currentLength = Finite 1, nconv = 1, entr = Some (Finite 0), entr0 = Finite 0\<rparr>) \<and>
   mexFunction (c\<lparr>update_rules := update_rules_spec act, l2norm2 := l2norm2_spec\<rparr>)
       (call [] [Finite 1, Finite 0] 5 1 (Finite (1 / 10 ^ 9)) 2 False) =
     Inr \<lparr>P_ENTROPY = Some (Finite 0), P_ITERATES = 2, P_LOOP_OUT = [Finite 1, Finite 0]\<rparr>"
  by (simp add: model_defs test_defs for_loop.simps)

subsection \<open>C3 and C4: the iteration count without convergence\<close>

text \<open>
  C3 says that a loop that runs all \<open>maxit\<close> iterations without leaving through
  \<^verbatim>\<open>break\<close> ends in a normal return with the count \<open>maxit + 1\<close>. With \<open>maxit = INT_MAX\<close>
  the longest run does run them all: the head of the last iteration, the one with
  \<^verbatim>\<open>it = INT_MAX\<close>, is reached after \<open>INT_MAX - 1\<close> iterations, and that iteration goes on
  too. The increment \<^verbatim>\<open>++it\<close> that follows overflows, and no count is returned.
\<close>

theorem budget_at_INT_MAX_counterexample:
  "maxit longest_call = INT_MAX \<and>
   initialise idle_collaborators longest_call =
     Inr \<lparr>a_storage = [Finite 1], b_storage = [Finite 0], discount = Finite 0,
          currentLength = Finite 1, nconv = 0, entr = None, entr0 = Finite (- 1)\<rparr> \<and>
   loop_head idle_collaborators longest_call
     \<lparr>a_storage = [Finite 1], b_storage = [Finite 0], discount = Finite 0,
      currentLength = Finite 1, nconv = 0, entr = None, entr0 = Finite (- 1)\<rparr>
     (Suc 2147483645) =
     Some (replicate 2147483645 True @ [False], 2147483647, steady 2147483645) \<and>
   iteration idle_collaborators longest_call (steady 2147483645) =
     Inr (Continue, steady 2147483646) \<and>
   mexFunction idle_collaborators longest_call = Inl int_overflow"
proof -
  let ?init = "\<lparr>a_storage = [Finite 1], b_storage = [Finite 0], discount = Finite 0,
      currentLength = Finite 1, nconv = 0, entr = None, entr0 = Finite (- 1)\<rparr>"
  have m: "maxit longest_call = INT_MAX"
    by (simp add: longest_call_def call_def INT_MAX_def)
  have h: "loop_head idle_collaborators longest_call ?init (Suc 2147483645) =
      Some (replicate 2147483645 True @ [False], 2147483647, steady 2147483645)"
    using longest_call_head [of 2147483645] by simp
  have i: "iteration idle_collaborators longest_call (steady 2147483645) =
      Inr (Continue, steady 2147483646)"
    using longest_call_steady [of 2147483645] by (simp add: iteration_def)
  have "for_loop idle_collaborators longest_call 1 ?init =
      for_loop idle_collaborators longest_call 2147483647 (steady 2147483645)"
    using loop_head_for_loop [OF h] by simp
  also have "\<dots> = Inl int_overflow"
    using m i by (subst for_loop.simps) (simp add: INT_MAX_def)
  finally have "mexFunction idle_collaborators longest_call = Inl int_overflow"
    by (simp add: mexFunction_def run_def longest_call_initialise)
  with m h i longest_call_initialise show ?thesis by simp
qed

text \<open>
  C3, amended. For \<open>0 \<le> maxit < INT_MAX\<close>, when each of the \<open>maxit\<close> iterations runs and
  goes on (none raises, none leaves the loop through \<^verbatim>\<open>break\<close>), the head after \<open>maxit\<close>
  iterations is reached with \<^verbatim>\<open>it = maxit + 1\<close>, the loop ends there through its condition,
  and the call returns normally with the iteration count \<open>maxit + 1\<close>.
\<close>

theorem budget_exhausted_returns_maxit_plus_one:
  assumes "initialise c p = Inr s0" and "0 \<le> maxit p" and "maxit p < INT_MAX"
    and "\<forall>k < nat (maxit p). \<exists>hist it s s'.
           loop_head c p s0 k = Some (hist, it, s) \<and> iteration c p s = Inr (Continue, s')"
  shows "\<exists>hist s. loop_head c p s0 (nat (maxit p)) = Some (hist, maxit p + 1, s) \<and>
           run c p = Inr (ByCondition, maxit p + 1, s) \<and>
           mexFunction c p =
             Inr \<lparr>P_ENTROPY = entr s, P_ITERATES = maxit p + 1,
                  P_LOOP_OUT = a_storage s @ b_storage s\<rparr>"
proof -
  from heads_of_continuing_run [OF assms(3,4), of "nat (maxit p)"] assms(2)
  obtain hist s where h: "loop_head c p s0 (nat (maxit p)) = Some (hist, maxit p + 1, s)"
    by auto
  from loop_head_for_loop [OF h] have
    eq: "for_loop c p 1 s0 = for_loop c p (maxit p + 1) s" by simp
  have "for_loop c p (maxit p + 1) s = Inr (ByCondition, maxit p + 1, s)"
    by (subst for_loop.simps) simp
  with eq assms(1) have "run c p = Inr (ByCondition, maxit p + 1, s)"
    "mexFunction c p =
       Inr \<lparr>P_ENTROPY = entr s, P_ITERATES = maxit p + 1,
            P_LOOP_OUT = a_storage s @ b_storage s\<rparr>"
    by (simp_all add: run_def mexFunction_def)
  with h show ?thesis by blast
qed

theorem budget_exhausted_returns_maxit_plus_one_witness:
  "initialise idle_collaborators (call [] [Finite 1, Finite 0] 1 1 (Finite (1 / 10 ^ 9)) 2 False) =
     Inr \<lparr>a_storage = [Finite 1], b_storage = [Finite 0], discount = Finite 0,
          currentLength = Finite 1, nconv = 0, entr = None, entr0 = Finite (- 1)\<rparr> \<and>
   iteration idle_collaborators (call [] [Finite 1, Finite 0] 1 1 (Finite (1 / 10 ^ 9)) 2 False)
     \<lparr>a_storage = [Finite 1], b_storage = [Finite 0], discount = Finite 0,
      currentLength = Finite 1, nconv = 0, entr = None, entr0 = Finite (- 1)\<rparr> =
     Inr (Continue,
       \<lparr>a_storage = [Finite 1], b_storage = [Finite 0], discount = Finite 0,
        currentLength = Finite 1, nconv = 0, entr = Some (Finite 0), entr0 = Finite 0\<rparr>) \<and>
   maxit (call [] [Finite 1, Finite 0] 1 1 (Finite (1 / 10 ^ 9)) 2 False) < INT_MAX \<and>
   mexFunction idle_collaborators (call [] [Finite 1, Finite 0] 1 1 (Finite (1 / 10 ^ 9)) 2 False) =
     Inr \<lparr>P_ENTROPY = Some (Finite 0), P_ITERATES = 2, P_LOOP_OUT = [Finite 1, Finite 0]\<rparr>"
proof -
  let ?p = "call [] [Finite 1, Finite 0] 1 1 (Finite (1 / 10 ^ 9)) 2 False"
  let ?init = "\<lparr>a_storage = [Finite 1], b_storage = [Finite 0], discount = Finite 0,
      currentLength = Finite 1, nconv = 0, entr = None, entr0 = Finite (- 1)\<rparr>"
  let ?fin = "\<lparr>a_storage = [Finite 1], b_storage = [Finite 0], discount = Finite 0,
      currentLength = Finite 1, nconv = 0, entr = Some (Finite 0), entr0 = Finite 0\<rparr>"
  have i: "initialise idle_collaborators ?p = Inr ?init"
    by (simp add: model_defs test_defs)
  have m: "0 \<le> maxit ?p" and b: "maxit ?p < INT_MAX" and k: "nat (maxit ?p) = Suc 0"
    by (simp_all add: call_def INT_MAX_def)
  have it: "iteration idle_collaborators ?p ?init = Inr (Continue, ?fin)"
    by (simp add: model_defs test_defs)
  have all: "\<forall>k < nat (maxit ?p). \<exists>hist it s s'.
      loop_head idle_collaborators ?p ?init k = Some (hist, it, s) \<and>
      iteration idle_collaborators ?p s = Inr (Continue, s')"
  proof (intro allI impI)
    fix j assume "j < nat (maxit ?p)"
    with k have "j = 0" by simp
    with it show "\<exists>hist it s s'.
        loop_head idle_collaborators ?p ?init j = Some (hist, it, s) \<and>
        iteration idle_collaborators ?p s = Inr (Continue, s')"
      by simp
  qed
  have h: "loop_head idle_collaborators ?p ?init (Suc 0) = Some ([False], 2, ?fin)"
    by (simp add: model_defs test_defs)
  have mx: "maxit ?p + 1 = 2" by (simp add: call_def)
  from budget_exhausted_returns_maxit_plus_one [OF i m b all] obtain hist s where
    hs: "loop_head idle_collaborators ?p ?init (nat (maxit ?p)) = Some (hist, maxit ?p + 1, s)"
    and mf: "mexFunction idle_collaborators ?p =
       Inr \<lparr>P_ENTROPY = entr s, P_ITERATES = maxit ?p + 1,
            P_LOOP_OUT = a_storage s @ b_storage s\<rparr>"
    by blast
  from hs have "Some ([False], 2, ?fin) = Some (hist, maxit ?p + 1, s)"
    by (simp only: k h)
  then have "s = ?fin" by simp
  with mf mx have "mexFunction idle_collaborators ?p =
      Inr \<lparr>P_ENTROPY = Some (Finite 0), P_ITERATES = 2, P_LOOP_OUT = [Finite 1, Finite 0]\<rparr>"
    by simp
  with i it b show ?thesis by simp
qed




subsection \<open>C5: the discount before the first iteration\<close>

text \<open>
  C5 gives the first discount under the intersection-number metric as \<open>(m/2 + 2) - 1\<close>, or
  \<open>(m/2 + 2) - 2\<close> for a fundamental loop, for a row of length \<open>2m\<close>. The code counts
  \<^verbatim>\<open>n = N/2 + 2\<close> punctures for the row length \<^verbatim>\<open>N\<close>: for \<open>m = 2\<close> the discount is 3 and 2,
  not 2 and 1. C5 also says that under the other metrics the discount is 0 throughout:
  it is 0 at first, but a divisor 0 turns it into NaN (the row \<open>[0, 0]\<close> under the
  Euclidean metric).
\<close>

theorem initial_discount_counterexample:
  "N (call [] [Finite 1, Finite 0, Finite 0, Finite 0] 5 1 (Finite (1 / 10 ^ 9)) 0 False) = 2 * 2 \<and>
   initial_discount (call [] [Finite 1, Finite 0, Finite 0, Finite 0] 5 1 (Finite (1 / 10 ^ 9)) 0 False)
     = Finite 3 \<and>
   Finite 3 \<noteq> Finite ((2 / 2 + 2) - 1) \<and>
   initial_discount (call [] [Finite 1, Finite 0, Finite 0, Finite 0] 5 1 (Finite (1 / 10 ^ 9)) 0 True)
     = Finite 2 \<and>
   Finite 2 \<noteq> Finite ((2 / 2 + 2) - 2) \<and>
   run idle_collaborators (call [] [Finite 0, Finite 0] 1 1 (Finite (1 / 10 ^ 9)) 2 False) =
     Inr (ByCondition, 2,
          \<lparr>a_storage = [NaN], b_storage = [NaN], discount = NaN,
           currentLength = NaN, nconv = 0, entr = Some NaN, entr0 = NaN\<rparr>)"
  by (simp add: model_defs test_defs for_loop.simps)

text \<open>
  C5, amended. Under the intersection-number metric a row of length \<open>2m\<close> starts with the
  discount \<open>(m + 2) - 1\<close>, or \<open>(m + 2) - 2\<close> for a fundamental loop. Under every other
  selector the discount is 0 before the first iteration, and an iteration that starts with
  the discount 0 and a divisor that is neither 0 nor NaN ends with the discount 0.
\<close>

theorem discount_start_and_zero:
  "(N p = 2 * m \<and> lengthFlag p = 0 \<longrightarrow>
      initial_discount p = Finite (real m + 2 - (if isFundamental p then 2 else 1))) \<and>
   (lengthFlag p \<noteq> 0 \<longrightarrow> initial_discount p = Finite 0) \<and>
   (initialise c p = Inr s0 \<longrightarrow> discount s0 = initial_discount p) \<and>
   (iteration c p s = Inr (ctl, s') \<and> discount s = Finite 0 \<and>
    currentLength s \<noteq> Finite 0 \<and> currentLength s \<noteq> NaN \<longrightarrow> discount s' = Finite 0)"
proof -
  have "discount s' = Finite 0"
    if "iteration c p s = Inr (ctl, s')" "discount s = Finite 0"
      "currentLength s \<noteq> Finite 0" "currentLength s \<noteq> NaN"
  proof -
    from that(1) obtain s1 where adv: "advance c p s = Inr s1" and
      ct: "convergence_test p (dlog (currentLength s1)) s1 = (ctl, s')"
      by (rule iteration_split)
    from advance_fields(3) [OF adv] that(2) ddiv_zero_stays [OF that(3,4)]
      convergence_test_keeps [OF ct]
    show ?thesis by simp
  qed
  moreover have "initialise c p = Inr s0 \<longrightarrow> discount s0 = initial_discount p"
    using initialise_fields(1) by blast
  ultimately show ?thesis
    by (auto simp: initial_discount_def n_def)
qed

theorem discount_start_and_zero_witness:
  "N (call [] [Finite 1, Finite 0, Finite 0, Finite 0] 5 1 (Finite (1 / 10 ^ 9)) 0 True) = 2 * 2 \<and>
   initial_discount (call [] [Finite 1, Finite 0, Finite 0, Finite 0] 5 1 (Finite (1 / 10 ^ 9)) 0 True)
     = Finite 2 \<and>
   initial_discount (call [] [Finite 1, Finite 0] 5 1 (Finite (1 / 10 ^ 9)) 2 False) = Finite 0 \<and>
   iteration idle_collaborators (call [] [Finite 1, Finite 0] 5 1 (Finite (1 / 10 ^ 9)) 2 False)
     \<lparr>a_storage = [Finite 1], b_storage = [Finite 0], discount = Finite 0,
      currentLength = Finite 1, nconv = 0, entr = None, entr0 = Finite (- 1)\<rparr> =
     Inr (Continue,
       \<lparr>a_storage = [Finite 1], b_storage = [Finite 0], discount = Finite 0,
        currentLength = Finite 1, nconv = 0, entr = Some (Finite 0), entr0 = Finite 0\<rparr>)"
proof -
  let ?q = "call [] [Finite 1, Finite 0, Finite 0, Finite 0] 5 1 (Finite (1 / 10 ^ 9)) 0 True"
  let ?p = "call [] [Finite 1, Finite 0] 5 1 (Finite (1 / 10 ^ 9)) 2 False"
  let ?init = "\<lparr>a_storage = [Finite 1], b_storage = [Finite 0], discount = Finite 0,
      currentLength = Finite 1, nconv = 0, entr = None, entr0 = Finite (- 1)\<rparr>"
  let ?next = "\<lparr>a_storage = [Finite 1], b_storage = [Finite 0], discount = Finite 0,
      currentLength = Finite 1, nconv = 0, entr = Some (Finite 0), entr0 = Finite 0\<rparr>"
  have nq: "N ?q = 2 * 2" and fq: "lengthFlag ?q = 0" and iq: "isFundamental ?q"
    by (simp_all add: call_def N_def)
  have fp: "lengthFlag ?p \<noteq> 0" by (simp add: call_def)
  have i: "initialise idle_collaborators ?p = Inr ?init"
    by (simp add: model_defs test_defs)
  have it: "iteration idle_collaborators ?p ?init = Inr (Continue, ?next)"
    by (simp add: model_defs test_defs)
  from discount_start_and_zero [of ?q 2 idle_collaborators ?init ?init Continue ?next] nq fq iq
  have 1: "initial_discount ?q = Finite 2" by simp
  from discount_start_and_zero [of ?p 1 idle_collaborators ?init ?init Continue ?next] fp i it
  have 2: "initial_discount ?p = Finite 0" "discount ?init = initial_discount ?p"
    "discount ?next = Finite 0" by simp_all
  from 1 2 nq it show ?thesis by simp
qed

subsection \<open>C6: the consecutive-stable counter\<close>

text \<open>
  C6. Take the head of the loop after \<open>k\<close> iterations, with the budget not yet used up,
  and the iteration that starts there. The counter \<^verbatim>\<open>nconv\<close> is the number of comparisons
  below the tolerance in a row up to that head. If the comparison of this iteration is not
  below the tolerance and the counter is positive, the iteration sets the counter to 0
  and goes on to the next head. For \<open>nconvreq \<ge> 1\<close> the loop ends through \<^verbatim>\<open>break\<close> in
  this iteration exactly when, with its comparison, the comparisons below the tolerance
  in a row are \<open>nconvreq\<close> many; and whenever the loop ends through \<^verbatim>\<open>break\<close>, in any
  iteration, the counter is \<open>nconvreq\<close> and the latest \<open>nconvreq\<close> comparisons were all
  below the tolerance.
\<close>

theorem streak_reset_and_convergence:
  assumes "loop_head c p s0 k = Some (hist, it, s)" and "nconv s0 = 0"
    and "it \<le> maxit p" and "advance c p s = Inr s1"
  shows "nconv s = int (streak hist) \<and>
     (\<not> below_tol p (dlog (currentLength s1)) s1 \<and> 0 < nconv s \<longrightarrow>
        iteration c p s =
          Inr (Continue, s1\<lparr>nconv := 0, entr0 := dlog (currentLength s1)\<rparr>) \<and>
        (it \<noteq> INT_MAX \<longrightarrow>
           loop_head c p s0 (Suc k) =
             Some (False # hist, it + 1,
                   s1\<lparr>nconv := 0, entr0 := dlog (currentLength s1)\<rparr>))) \<and>
     (1 \<le> nconvreq p \<longrightarrow>
        ((\<exists>sf. for_loop c p 1 s0 = Inr (ByBreak, it, sf)) \<longleftrightarrow>
         int (streak (below_tol p (dlog (currentLength s1)) s1 # hist)) = nconvreq p)) \<and>
     (\<forall>j sf. 1 \<le> nconvreq p \<and> for_loop c p 1 s0 = Inr (ByBreak, j, sf) \<longrightarrow>
        nconv sf = nconvreq p \<and>
        (\<exists>k' hist'. (\<exists>s'. loop_head c p s0 k' = Some (hist', j, s')) \<and>
           int (streak (True # hist')) = nconvreq p))"
proof -
  let ?en = "dlog (currentLength s1)"
  have n1: "nconv s1 = nconv s" by (rule advance_fields(1) [OF assms(4)])
  have st: "nconv s = int (streak hist)" by (rule nconv_streak [OF assms(1,2)])
  have reset: "iteration c p s = Inr (Continue, s1\<lparr>nconv := 0, entr0 := ?en\<rparr>)"
    if "\<not> below_tol p ?en s1" "0 < nconv s"
    using that assms(4) n1 by (simp add: iteration_def convergence_test_cases)
  have cont: "loop_head c p s0 (Suc k) =
      Some (False # hist, it + 1, s1\<lparr>nconv := 0, entr0 := ?en\<rparr>)"
    if "\<not> below_tol p ?en s1" "0 < nconv s" "it \<noteq> INT_MAX"
    using that assms(1,3,4) n1 by (simp add: convergence_test_cases)
  have conv: "(\<exists>sf. for_loop c p 1 s0 = Inr (ByBreak, it, sf)) \<longleftrightarrow>
      int (streak (below_tol p ?en s1 # hist)) = nconvreq p" if req: "1 \<le> nconvreq p"
  proof -
    have lt: "nconv s < nconvreq p" by (rule nconv_below_required [OF assms(1,2) req])
    have "for_loop c p 1 s0 = for_loop c p it s"
      using loop_head_for_loop [OF assms(1)] by simp
    then have "(\<exists>sf. for_loop c p 1 s0 = Inr (ByBreak, it, sf)) \<longleftrightarrow>
        fst (convergence_test p ?en s1) = Break"
      using for_loop_break_now [OF assms(3,4)] by simp
    also have "\<dots> \<longleftrightarrow> below_tol p ?en s1 \<and> nconvreq p \<le> nconv s + 1"
      using n1 by (simp add: convergence_test_cases)
    also have "\<dots> \<longleftrightarrow> int (streak (below_tol p ?en s1 # hist)) = nconvreq p"
      using lt st req by auto
    finally show ?thesis .
  qed
  have full: "nconv sf = nconvreq p \<and>
      (\<exists>k' hist'. (\<exists>s'. loop_head c p s0 k' = Some (hist', j, s')) \<and>
         int (streak (True # hist')) = nconvreq p)"
    if "1 \<le> nconvreq p" "for_loop c p 1 s0 = Inr (ByBreak, j, sf)" for j sf
    by (rule break_means_full_streak [OF that(2) assms(2) that(1)])
  from st reset cont conv full show ?thesis by blast
qed

text \<open>The witness runs the generator action with the log-growth values 0, 0, 1: with
  \<open>nconvreq = 2\<close> the third iteration breaks a streak of one and resets the counter; with
  \<open>nconvreq = 1\<close> the second iteration ends the loop.\<close>

theorem streak_reset_and_convergence_witness:
  "loop_head cycling_collaborators (call [1] [Finite 1, Finite 0] 3 2 (Finite (1 / 10 ^ 9)) 1 False)
     \<lparr>a_storage = [Finite 1], b_storage = [Finite 0], discount = Finite 0,
      currentLength = Finite 1, nconv = 0, entr = None, entr0 = Finite (- 1)\<rparr> (Suc (Suc 0)) =
     Some ([True, False], 3,
       \<lparr>a_storage = [Finite 0], b_storage = [Finite 1], discount = Finite 0,
        currentLength = Finite 1, nconv = 1, entr = Some (Finite 0), entr0 = Finite 0\<rparr>) \<and>
   iteration cycling_collaborators (call [1] [Finite 1, Finite 0] 3 2 (Finite (1 / 10 ^ 9)) 1 False)
     \<lparr>a_storage = [Finite 0], b_storage = [Finite 1], discount = Finite 0,
      currentLength = Finite 1, nconv = 1, entr = Some (Finite 0), entr0 = Finite 0\<rparr> =
     Inr (Continue,
       \<lparr>a_storage = [Finite (exp 1)], b_storage = [Finite 0], discount = Finite 0,
        currentLength = Finite (exp 1), nconv = 0, entr = Some (Finite 1), entr0 = Finite 1\<rparr>) \<and>
   (\<nexists>sf. for_loop cycling_collaborators
           (call [1] [Finite 1, Finite 0] 3 2 (Finite (1 / 10 ^ 9)) 1 False) 1
           \<lparr>a_storage = [Finite 1], b_storage = [Finite 0], discount = Finite 0,
            currentLength = Finite 1, nconv = 0, entr = None, entr0 = Finite (- 1)\<rparr> =
         Inr (ByBreak, 3, sf)) \<and>
   (\<exists>sf. for_loop cycling_collaborators
           (call [1] [Finite 1, Finite 0] 3 1 (Finite (1 / 10 ^ 9)) 1 False) 1
           \<lparr>a_storage = [Finite 1], b_storage = [Finite 0], discount = Finite 0,
            currentLength = Finite 1, nconv = 0, entr = None, entr0 = Finite (- 1)\<rparr> =
         Inr (ByBreak, 2, sf))"
proof -
  let ?p = "call [1] [Finite 1, Finite 0] 3 2 (Finite (1 / 10 ^ 9)) 1 False"
  let ?q = "call [1] [Finite 1, Finite 0] 3 1 (Finite (1 / 10 ^ 9)) 1 False"
  let ?init = "\<lparr>a_storage = [Finite 1], b_storage = [Finite 0], discount = Finite 0,
      currentLength = Finite 1, nconv = 0, entr = None, entr0 = Finite (- 1)\<rparr>"
  let ?one = "\<lparr>a_storage = [Finite (1 / 2)], b_storage = [Finite (1 / 2)], discount = Finite 0,
      currentLength = Finite 1, nconv = 0, entr = Some (Finite 0), entr0 = Finite 0\<rparr>"
  let ?half = "\<lparr>a_storage = [Finite 0], b_storage = [Finite 1], discount = Finite 0,
      currentLength = Finite 1, nconv = 0, entr = Some (Finite 0), entr0 = Finite 0\<rparr>"
  let ?head = "\<lparr>a_storage = [Finite 0], b_storage = [Finite 1], discount = Finite 0,
      currentLength = Finite 1, nconv = 1, entr = Some (Finite 0), entr0 = Finite 0\<rparr>"
  let ?mid = "\<lparr>a_storage = [Finite (exp 1)], b_storage = [Finite 0], discount = Finite 0,
      currentLength = Finite (exp 1), nconv = 1, entr = Some (Finite 1), entr0 = Finite 0\<rparr>"
  have z: "nconv ?init = 0" by simp
  have h: "loop_head cycling_collaborators ?p ?init (Suc (Suc 0)) = Some ([True, False], 3, ?head)"
    by (simp add: model_defs test_defs)
  have m: "3 \<le> maxit ?p" by (simp add: call_def)
  have a: "advance cycling_collaborators ?p ?head = Inr ?mid"
    by (simp add: model_defs test_defs)
  have b: "\<not> below_tol ?p (dlog (currentLength ?mid)) ?mid"
    by (simp add: below_tol_def call_def)
  have r: "(1::int) \<le> nconvreq ?p" "nconvreq ?p = 2" by (simp_all add: call_def)
  from streak_reset_and_convergence [OF h z m a] b r
  have first: "iteration cycling_collaborators ?p ?head =
      Inr (Continue, ?mid\<lparr>nconv := 0, entr0 := dlog (currentLength ?mid)\<rparr>)"
    "\<nexists>sf. for_loop cycling_collaborators ?p 1 ?init = Inr (ByBreak, 3, sf)"
    by simp_all
  have h': "loop_head cycling_collaborators ?q ?init (Suc 0) = Some ([False], 2, ?one)"
    by (simp add: model_defs test_defs)
  have m': "2 \<le> maxit ?q" by (simp add: call_def)
  have a': "advance cycling_collaborators ?q ?one = Inr ?half"
    by (simp add: model_defs test_defs)
  have b': "below_tol ?q (dlog (currentLength ?half)) ?half"
    by (simp add: below_tol_def call_def)
  have r': "(1::int) \<le> nconvreq ?q" "nconvreq ?q = 1" by (simp_all add: call_def)
  from streak_reset_and_convergence [OF h' z m' a'] b' r'
  have second: "\<exists>sf. for_loop cycling_collaborators ?q 1 ?init = Inr (ByBreak, 2, sf)"
    by simp
  from h first second show ?thesis by simp
qed

subsection \<open>C7: one divisor for the coordinates and the discount\<close>

text \<open>
  C7. The rescale step divides the discount and every coordinate \<^verbatim>\<open>a[k]\<close>, \<^verbatim>\<open>b[k]\<close> by
  the same value, the \<^verbatim>\<open>currentLength\<close> the iteration starts with, with the same division.
  After an iteration the discount is its previous value divided by that length, the
  coordinates are the braid action on the coordinates divided by that length, and the new
  \<^verbatim>\<open>currentLength\<close> is the oracle's value on them minus the new discount.
\<close>

theorem rescale_divides_discount_like_coordinates:
  "discount (rescale s) = ddiv (discount s) (currentLength s) \<and>
   a_storage (rescale s) = map (\<lambda>x. ddiv x (currentLength s)) (a_storage s) \<and>
   b_storage (rescale s) = map (\<lambda>x. ddiv x (currentLength s)) (b_storage s) \<and>
   (iteration c p s = Inr (ctl, s') \<longrightarrow>
      discount s' = ddiv (discount s) (currentLength s) \<and>
      (a_storage s', b_storage s') =
        update_rules c (Ngen p) (n p) (braidword p)
          (map (\<lambda>x. ddiv x (currentLength s)) (a_storage s))
          (map (\<lambda>x. ddiv x (currentLength s)) (b_storage s)) \<and>
      (\<exists>len. looplength c (N p) (a_storage s') (b_storage s') (lengthFlag p) = Inr len \<and>
         currentLength s' = dsub len (discount s')))"
proof -
  have "discount s' = ddiv (discount s) (currentLength s) \<and>
      (a_storage s', b_storage s') =
        update_rules c (Ngen p) (n p) (braidword p)
          (map (\<lambda>x. ddiv x (currentLength s)) (a_storage s))
          (map (\<lambda>x. ddiv x (currentLength s)) (b_storage s)) \<and>
      (\<exists>len. looplength c (N p) (a_storage s') (b_storage s') (lengthFlag p) = Inr len \<and>
         currentLength s' = dsub len (discount s'))"
    if "iteration c p s = Inr (ctl, s')"
  proof -
    from that obtain s1 where adv: "advance c p s = Inr s1" and
      ct: "convergence_test p (dlog (currentLength s1)) s1 = (ctl, s')"
      by (rule iteration_split)
    from advance_fields(3,5,6) [OF adv] convergence_test_keeps [OF ct]
    show ?thesis by simp
  qed
  moreover have "discount (rescale s) = ddiv (discount s) (currentLength s)"
    "a_storage (rescale s) = map (\<lambda>x. ddiv x (currentLength s)) (a_storage s)"
    "b_storage (rescale s) = map (\<lambda>x. ddiv x (currentLength s)) (b_storage s)"
    by (simp_all add: rescale_def)
  ultimately show ?thesis by blast
qed

theorem rescale_divides_discount_like_coordinates_witness:
  "iteration idle_collaborators (call [] [Finite 2, Finite 2] 5 1 (Finite (1 / 10 ^ 9)) 0 False)
     \<lparr>a_storage = [Finite 2], b_storage = [Finite 2], discount = Finite 2,
      currentLength = Finite 2, nconv = 0, entr = None, entr0 = Finite (- 1)\<rparr> =
     Inr (Continue,
       \<lparr>a_storage = [Finite 1], b_storage = [Finite 1], discount = Finite 1,
        currentLength = Finite 1, nconv = 0, entr = Some (Finite 0), entr0 = Finite 0\<rparr>) \<and>
   Finite 1 = ddiv (Finite 2) (Finite 2) \<and>
   ([Finite 1], [Finite 1]) =
     update_rules idle_collaborators 0 3 [] (map (\<lambda>x. ddiv x (Finite 2)) [Finite 2])
       (map (\<lambda>x. ddiv x (Finite 2)) [Finite 2])"
proof -
  let ?p = "call [] [Finite 2, Finite 2] 5 1 (Finite (1 / 10 ^ 9)) 0 False"
  let ?init = "\<lparr>a_storage = [Finite 2], b_storage = [Finite 2], discount = Finite 2,
      currentLength = Finite 2, nconv = 0, entr = None, entr0 = Finite (- 1)\<rparr>"
  let ?next = "\<lparr>a_storage = [Finite 1], b_storage = [Finite 1], discount = Finite 1,
      currentLength = Finite 1, nconv = 0, entr = Some (Finite 0), entr0 = Finite 0\<rparr>"
  have it: "iteration idle_collaborators ?p ?init = Inr (Continue, ?next)"
    by (simp add: model_defs test_defs)
  have c: "Ngen ?p = 0" "n ?p = 3" "braidword ?p = []"
    by (simp_all add: call_def Ngen_def n_def N_def braidword_def)
  from rescale_divides_discount_like_coordinates [of ?init idle_collaborators ?p Continue ?next]
    it c
  show ?thesis by simp
qed

subsection \<open>C8: the oracle's check\<close>

text \<open>
  C8 says that a negative value of the metric function raises the negative-length error
  on that call, so that the oracle's value is always \<open>\<ge> 0\<close>. The check is
  \<^verbatim>\<open>retval < 0\<close>, which a NaN passes: on the coordinates NaN the Euclidean metric makes the
  oracle return NaN, as happens in the first iteration for the row \<open>[0, 0]\<close>; and a
  negative value of \<^verbatim>\<open>l2norm2\<close> raises nothing, since its square root is checked.
\<close>

theorem length_oracle_nan_counterexample:
  "looplength idle_collaborators 2 [NaN] [NaN] 2 = Inr NaN \<and> \<not> dge NaN (Finite 0) \<and>
   mexFunction idle_collaborators (call [] [Finite 0, Finite 0] 1 1 (Finite (1 / 10 ^ 9)) 2 False) =
     Inr \<lparr>P_ENTROPY = Some NaN, P_ITERATES = 2, P_LOOP_OUT = [NaN, NaN]\<rparr> \<and>
   looplength (idle_collaborators\<lparr>l2norm2 := negative_length\<rparr>) 2 [Finite 1] [Finite 0] 2 =
     Inr NaN"
  by (simp add: model_defs test_defs for_loop.simps)

text \<open>
  C8, amended. Under the selectors 0 and 1 a negative value of \<^verbatim>\<open>intaxis\<close> or
  \<^verbatim>\<open>minlength\<close> makes the oracle raise \<^verbatim>\<open>badlength\<close> on that call. Under the selector 2
  the oracle returns the square root of \<^verbatim>\<open>l2norm2\<close> and never raises. A value the oracle
  returns is not negative: it is \<open>\<ge> 0\<close> unless it is NaN.
\<close>

theorem length_oracle_never_negative:
  "(flag = 0 \<and> dlt (intaxis c sz a b) (Finite 0) \<longrightarrow>
      looplength c sz a b flag = Inl badlength) \<and>
   (flag = 1 \<and> dlt (minlength c sz a b) (Finite 0) \<longrightarrow>
      looplength c sz a b flag = Inl badlength) \<and>
   (flag = 2 \<longrightarrow> looplength c sz a b flag = Inr (dsqrt (l2norm2 c sz a b))) \<and>
   (looplength c sz a b flag = Inr r \<longrightarrow>
      \<not> dlt r (Finite 0) \<and> (r \<noteq> NaN \<longrightarrow> dge r (Finite 0)))"
  using looplength_not_negative [of c sz a b flag r] not_negative_dge [of r]
    dsqrt_not_negative [of "l2norm2 c sz a b"]
  by (auto simp: looplength_def metric_value_def)

theorem length_oracle_never_negative_witness:
  "looplength (idle_collaborators\<lparr>intaxis := negative_length\<rparr>) 2 [Finite 1] [Finite 0] 0 =
     Inl badlength \<and>
   looplength (idle_collaborators\<lparr>minlength := negative_length\<rparr>) 2 [Finite 1] [Finite 0] 1 =
     Inl badlength \<and>
   looplength idle_collaborators 2 [Finite 1] [Finite 0] 2 = Inr (Finite 1) \<and>
   \<not> dlt (Finite 1) (Finite 0) \<and> dge (Finite 1) (Finite 0)"
proof -
  let ?c0 = "idle_collaborators\<lparr>intaxis := negative_length\<rparr>"
  let ?c1 = "idle_collaborators\<lparr>minlength := negative_length\<rparr>"
  have v: "looplength idle_collaborators 2 [Finite 1] [Finite 0] 2 = Inr (Finite 1)"
    by (simp add: model_defs test_defs)
  from length_oracle_never_negative [of 0 ?c0 2 "[Finite 1]" "[Finite 0]" "Finite 1"]
  have 0: "looplength ?c0 2 [Finite 1] [Finite 0] 0 = Inl badlength"
    by (simp add: negative_length_def)
  from length_oracle_never_negative [of 1 ?c1 2 "[Finite 1]" "[Finite 0]" "Finite 1"]
  have 1: "looplength ?c1 2 [Finite 1] [Finite 0] 1 = Inl badlength"
    by (simp add: negative_length_def)
  from length_oracle_never_negative [of 2 idle_collaborators 2 "[Finite 1]" "[Finite 0]" "Finite 1"] v
  have 2: "\<not> dlt (Finite 1) (Finite 0)" "dge (Finite 1) (Finite 0)" by simp_all
  from 0 1 2 v show ?thesis by simp
qed

subsection \<open>C9: an unsupported metric selector\<close>

text \<open>
  C9. A metric selector other than 0, 1 and 2 makes the oracle raise
  \<^verbatim>\<open>badlengthflag\<close> on any coordinates, and the whole call ends in an error without any
  output: \<^verbatim>\<open>badlengthflag\<close> from the first call of the oracle when the loop argument is a
  single row of even length, \<^verbatim>\<open>badarg\<close> from the shape checks, which come first,
  otherwise.
\<close>

theorem unsupported_metric_fails:
  assumes "lengthFlag p \<notin> {0, 1, 2}"
  shows "looplength c sz a b (lengthFlag p) = Inl badlengthflag \<and>
         mexFunction c p =
           Inl (if mxGetM (P_LOOP_IN p) = 1 \<and> N p mod 2 = 0 then badlengthflag else badarg)"
  using assms
  by (simp add: mexFunction_def run_def initialise_def looplength_def metric_value_def)

theorem unsupported_metric_fails_witness:
  "lengthFlag (call [] [Finite 1, Finite 0] 5 1 (Finite (1 / 10 ^ 9)) 5 False) \<notin> {0, 1, 2} \<and>
   looplength idle_collaborators 2 [Finite 1] [Finite 0] 5 = Inl badlengthflag \<and>
   mexFunction idle_collaborators
       (call [] [Finite 1, Finite 0] 5 1 (Finite (1 / 10 ^ 9)) 5 False) = Inl badlengthflag"
  using unsupported_metric_fails
    [of "call [] [Finite 1, Finite 0] 5 1 (Finite (1 / 10 ^ 9)) 5 False"
        idle_collaborators 2 "[Finite 1]" "[Finite 0]"]
  by (simp add: call_def N_def)

subsection \<open>C10: the sentinel of the first comparison\<close>

text \<open>
  C10. The previous log-growth value starts as the sentinel \<open>-1\<close>, and the first iteration
  compares its value with it like with any other: when the first log-growth value is
  within \<open>tol\<close> of \<open>-1\<close>, the comparison is below the tolerance and the counter becomes 1;
  with \<open>nconvreq = 1\<close> (or less) and \<open>maxit\<close> at least 1 the loop is then left through
  \<^verbatim>\<open>break\<close> in the first iteration and the call returns the iteration count 1.
\<close>

theorem sentinel_counts_as_previous_value:
  assumes "initialise c p = Inr s0" and "advance c p s0 = Inr s1"
    and "dlt (dfabs (dsub (dlog (currentLength s1)) (Finite (- 1)))) (tol p)"
    and "1 \<le> maxit p"
  shows "entr0 s0 = Finite (- 1) \<and>
         below_tol p (dlog (currentLength s1)) s1 \<and>
         nconv (snd (convergence_test p (dlog (currentLength s1)) s1)) = 1 \<and>
         (nconvreq p \<le> 1 \<longrightarrow>
            run c p = Inr (ByBreak, 1, s1\<lparr>nconv := 1\<rparr>) \<and>
            mexFunction c p =
              Inr \<lparr>P_ENTROPY = Some (dlog (currentLength s1)), P_ITERATES = 1,
                   P_LOOP_OUT = a_storage s1 @ b_storage s1\<rparr>)"
proof -
  let ?en = "dlog (currentLength s1)"
  have e0: "entr0 s0 = Finite (- 1)" and n0: "nconv s0 = 0"
    using initialise_fields [OF assms(1)] by simp_all
  with advance_fields(1,2) [OF assms(2)] have s1: "entr0 s1 = Finite (- 1)" "nconv s1 = 0"
    by simp_all
  with assms(3) have below: "below_tol p ?en s1"
    by (simp add: below_tol_def)
  with s1 have one: "nconv (snd (convergence_test p ?en s1)) = 1"
    by (simp add: convergence_test_cases)
  have "run c p = Inr (ByBreak, 1, s1\<lparr>nconv := 1\<rparr>) \<and>
      mexFunction c p =
        Inr \<lparr>P_ENTROPY = Some ?en, P_ITERATES = 1, P_LOOP_OUT = a_storage s1 @ b_storage s1\<rparr>"
    if "nconvreq p \<le> 1"
  proof -
    from that below s1 have "convergence_test p ?en s1 = (Break, s1\<lparr>nconv := 1\<rparr>)"
      by (simp add: convergence_test_cases)
    with assms(2,4) have "for_loop c p 1 s0 = Inr (ByBreak, 1, s1\<lparr>nconv := 1\<rparr>)"
      by (subst for_loop.simps) (simp add: iteration_def)
    with assms(1) advance_fields(4) [OF assms(2)] show ?thesis
      by (simp add: run_def mexFunction_def)
  qed
  with e0 below one show ?thesis by blast
qed

theorem sentinel_counts_as_previous_value_witness:
  "initialise shrinking_collaborators
       (call [1] [Finite 1, Finite 0] 5 1 (Finite (1 / 10 ^ 9)) 1 False) =
     Inr \<lparr>a_storage = [Finite 1], b_storage = [Finite 0], discount = Finite 0,
          currentLength = Finite 1, nconv = 0, entr = None, entr0 = Finite (- 1)\<rparr> \<and>
   mexFunction shrinking_collaborators
       (call [1] [Finite 1, Finite 0] 5 1 (Finite (1 / 10 ^ 9)) 1 False) =
     Inr \<lparr>P_ENTROPY = Some (Finite (- 1)), P_ITERATES = 1,
          P_LOOP_OUT = [Finite (exp (- 1)), Finite 0]\<rparr>"
proof -
  let ?p = "call [1] [Finite 1, Finite 0] 5 1 (Finite (1 / 10 ^ 9)) 1 False"
  let ?init = "\<lparr>a_storage = [Finite 1], b_storage = [Finite 0], discount = Finite 0,
      currentLength = Finite 1, nconv = 0, entr = None, entr0 = Finite (- 1)\<rparr>"
  let ?mid = "\<lparr>a_storage = [Finite (exp (- 1))], b_storage = [Finite 0], discount = Finite 0,
      currentLength = Finite (exp (- 1)), nconv = 0, entr = Some (Finite (- 1)),
      entr0 = Finite (- 1)\<rparr>"
  have i: "initialise shrinking_collaborators ?p = Inr ?init"
    by (simp add: model_defs test_defs)
  have a: "advance shrinking_collaborators ?p ?init = Inr ?mid"
    by (simp add: model_defs test_defs)
  have t: "dlt (dfabs (dsub (dlog (currentLength ?mid)) (Finite (- 1)))) (tol ?p)"
    by (simp add: call_def)
  have r: "nconvreq ?p \<le> 1" and m: "1 \<le> maxit ?p" by (simp_all add: call_def)
  from sentinel_counts_as_previous_value [OF i a t m] r i show ?thesis
    by simp
qed

end
